theory Spec2Isabelle
  imports Complex_Main
begin

section \<open>JavaScript values\<close>

text \<open>
  The dashboard controller is \<^verbatim>\<open>src/app/static/js/scripts.js\<close>. Its functions read
  and write the page (the DOM), start timers and call the network; here each of them is a
  function from the state of the page to the new state.

  A JavaScript number is \<^verbatim>\<open>NaN\<close>, an infinity or a finite value. The finite values
  are carried as reals.
\<close>

datatype jsnum = NaN | PosInfinity | NegInfinity | Finite real

text \<open>\<^verbatim>\<open>!x\<close> on a number is true for \<^verbatim>\<open>NaN\<close> and for zero, on a string for the empty string.\<close>

fun truthy_num :: "jsnum \<Rightarrow> bool" where
  "truthy_num NaN = False"
| "truthy_num PosInfinity = True"
| "truthy_num NegInfinity = True"
| "truthy_num (Finite x) = (x \<noteq> 0)"

definition truthy_str :: "string \<Rightarrow> bool" where
  "truthy_str s = (s \<noteq> [])"

subsection \<open>The builtin \<^verbatim>\<open>parseFloat\<close>\<close>

text \<open>
  \<^verbatim>\<open>parseFloat\<close> is part of the language, not of the repository. It is modelled after
  ECMAScript: leading white space is skipped, the longest prefix that is a
  \<^verbatim>\<open>StrDecimalLiteral\<close> (sign, \<^verbatim>\<open>Infinity\<close> or digits with an optional fraction and
  exponent) is read, and anything after it is ignored; with no such prefix the result is
  \<^verbatim>\<open>NaN\<close>. Strings are byte strings here, so only the ASCII white space is skipped.
\<close>

definition is_white :: "char \<Rightarrow> bool" where
  "is_white c = (c \<in> set [CHR '' '', CHR 0x09, CHR 0x0A, CHR 0x0B, CHR 0x0C, CHR 0x0D])"

definition is_digit :: "char \<Rightarrow> bool" where
  "is_digit c = (c \<in> set ''0123456789'')"

definition digit_val :: "char \<Rightarrow> nat" where
  "digit_val c = of_char c - 48"

definition digits_val :: "string \<Rightarrow> nat" where
  "digits_val ds = foldl (\<lambda>acc c. 10 * acc + digit_val c) 0 ds"

text \<open>
  The value read is rounded to a double. Only the two ends of the range are written out:
  a magnitude of at most \<^verbatim>\<open>2^-1075\<close> rounds to zero and one of at least
  \<^verbatim>\<open>2^1024 - 2^970\<close> to an infinity. In between the exact value is kept; rounding
  there changes neither the sign nor whether the number is zero.
\<close>

definition to_double :: "real \<Rightarrow> jsnum" where
  "to_double x =
     (if \<bar>x\<bar> \<le> 1 / 2 ^ 1075 then Finite 0
      else if 2 ^ 1024 - 2 ^ 970 \<le> \<bar>x\<bar> then (if x < 0 then NegInfinity else PosInfinity)
      else Finite x)"

definition split_sign :: "string \<Rightarrow> bool \<times> string" where
  "split_sign t =
     (case t of
        [] \<Rightarrow> (False, [])
      | c # r \<Rightarrow> if c = CHR ''-'' then (True, r)
                 else if c = CHR ''+'' then (False, r)
                 else (False, t))"

text \<open>An exponent part is read only when it is complete; otherwise the literal ends before it.\<close>

definition exponent_part :: "string \<Rightarrow> int" where
  "exponent_part r =
     (case r of
        [] \<Rightarrow> 0
      | c # r' \<Rightarrow>
          if c = CHR ''e'' \<or> c = CHR ''E'' then
            (let (neg, r'') = split_sign r'; ds = takeWhile is_digit r''
             in if ds = [] then 0
                else if neg then - int (digits_val ds) else int (digits_val ds))
          else 0)"

definition scale10 :: "real \<Rightarrow> int \<Rightarrow> real" where
  "scale10 m e = (if 0 \<le> e then m * 10 ^ nat e else m / 10 ^ nat (- e))"

definition parseFloat :: "string \<Rightarrow> jsnum" where
  "parseFloat s =
     (let (neg, u) = split_sign (dropWhile is_white s)
      in if take 8 u = ''Infinity'' then (if neg then NegInfinity else PosInfinity)
         else
           let ip = takeWhile is_digit u;
               r1 = dropWhile is_digit u;
               (fp, r2) = (case r1 of
                             [] \<Rightarrow> ([], [])
                           | c # r \<Rightarrow> if c = CHR ''.''
                                      then (takeWhile is_digit r, dropWhile is_digit r)
                                      else ([], r1))
           in if ip = [] \<and> fp = [] then NaN
              else
                let mv = scale10 (real (digits_val (ip @ fp)))
                                 (exponent_part r2 - int (length fp))
                in to_double (if neg then - mv else mv))"

section \<open>The page\<close>

text \<open>
  A toast is the \<^verbatim>\<open>div\<close> that \<^verbatim>\<open>showToast\<close> creates: its class name, the icon and the
  message of its markup. \<open>tid\<close> is the identity of the element.
\<close>

record toast =
  tid :: nat
  className :: string
  icon :: string
  message :: string

text \<open>The callbacks that the modelled functions hand to \<^verbatim>\<open>setTimeout\<close>.\<close>

datatype task =
    ToastExpire nat
  | LocationAdded
  | DashboardLoaded

text \<open>A value that is thrown: the constructor and the message.\<close>

datatype js_error = Error string | TypeError string | SyntaxError string

text \<open>What the page shows or prints, in the order in which it happens, with the time.\<close>

datatype effect =
    ToastShown string string
  | ModalHidden
  | FormReset
  | ConsoleLog string
  | ConsoleError string js_error
  | AnimateNumber nat jsnum

record location_form =
  location_name :: string
  location_address :: string
  latitude_field :: string
  longitude_field :: string
  property_type :: string

record modal_style =
  visibility :: string
  opacity :: string

text \<open>A request handed to \<^verbatim>\<open>fetch\<close>: the URL and the configuration object.\<close>

record config =
  headers :: "(string \<rightharpoonup> string) option"
  http_method :: "string option"
  body :: "string option"

record chart =
  data_labels :: "string list"
  data_dataset0 :: "real list"
  updates :: nat

record world =
  now :: nat
  toast_container :: "toast list"
  next_tid :: nat
  timers :: "(nat \<times> task) list"
  trace :: "(nat \<times> effect) list"
  form :: location_form
  form_defaults :: location_form
  location_modal :: modal_style
  stat_numbers :: "string list"
  fetches :: "(string \<times> config) list"
  temperatureChart :: "chart option"

definition emit :: "effect \<Rightarrow> world \<Rightarrow> world" where
  "emit e s = s\<lparr>trace := trace s @ [(now s, e)]\<rparr>"

definition setTimeout :: "task \<Rightarrow> nat \<Rightarrow> world \<Rightarrow> world" where
  "setTimeout k delay s = s\<lparr>timers := timers s @ [(now s + delay, k)]\<rparr>"

section \<open>Toasts\<close>

text \<open>
  \<^verbatim>\<open>showToast(message, type)\<close> builds the element, appends it to the container (which the
  page has) and sets a timer of 5000 ms whose callback removes the toast if it still has a
  parent.
\<close>

definition toast_icon :: "string \<Rightarrow> string" where
  "toast_icon type =
     (if type = ''success'' then ''check-circle''
      else if type = ''error'' then ''exclamation-triangle''
      else ''info-circle'')"

definition showToast :: "string \<Rightarrow> string \<Rightarrow> world \<Rightarrow> world" where
  "showToast msg type s =
     (let t = \<lparr>tid = next_tid s, className = ''toast toast-'' @ type,
               icon = toast_icon type, message = msg\<rparr>;
          s1 = s\<lparr>toast_container := toast_container s @ [t], next_tid := Suc (next_tid s)\<rparr>;
          s2 = emit (ToastShown msg type) s1
      in setTimeout (ToastExpire (tid t)) 5000 s2)"

text \<open>\<^verbatim>\<open>toast.parentElement\<close> is set exactly while the toast is a child of the container.\<close>

definition attached :: "nat \<Rightarrow> world \<Rightarrow> bool" where
  "attached i s = (i \<in> tid ` set (toast_container s))"

text \<open>\<^verbatim>\<open>toast.remove()\<close> takes the element out of its parent; without a parent it does nothing.\<close>

definition remove_toast :: "nat \<Rightarrow> world \<Rightarrow> world" where
  "remove_toast i s = s\<lparr>toast_container := filter (\<lambda>t. tid t \<noteq> i) (toast_container s)\<rparr>"

text \<open>The close button of a toast: \<^verbatim>\<open>onclick="this.parentElement.remove()"\<close>.\<close>

definition dismissToast :: "nat \<Rightarrow> world \<Rightarrow> world" where
  "dismissToast i s = remove_toast i s"

definition toast_expire :: "nat \<Rightarrow> world \<Rightarrow> world" where
  "toast_expire i s = (if attached i s then remove_toast i s else s)"

section \<open>Modals, the dashboard load and the location form\<close>

text \<open>
  The page has one modal, the location modal. \<^verbatim>\<open>showModal\<close> and \<^verbatim>\<open>hideModal\<close> set its
  visibility and its opacity.
\<close>

definition showModal :: "world \<Rightarrow> world" where
  "showModal s = s\<lparr>location_modal := \<lparr>visibility = ''visible'', opacity = ''1''\<rparr>\<rparr>"

definition hideModal :: "world \<Rightarrow> world" where
  "hideModal s =
     emit ModalHidden (s\<lparr>location_modal := \<lparr>visibility = ''hidden'', opacity = ''0''\<rparr>\<rparr>)"

text \<open>
  \<^verbatim>\<open>animateStatNumbers\<close> starts \<^verbatim>\<open>animateNumber(stat, 0, numericValue, 2000)\<close> for
  every stat element whose text parses. The frames of an animation are modelled on their own
  below; here the start of each animation is recorded, with the index of the element and
  the end value.
\<close>

definition animateStatNumbers :: "world \<Rightarrow> world" where
  "animateStatNumbers s =
     foldl (\<lambda>s' (i, finalValue).
              let numericValue = parseFloat finalValue
              in if numericValue \<noteq> NaN then emit (AnimateNumber i numericValue) s' else s')
           s (enumerate 0 (stat_numbers s))"

definition loadDashboardData_callback :: "world \<Rightarrow> world" where
  "loadDashboardData_callback s = emit (ConsoleLog ''Dashboard data loaded'') (animateStatNumbers s)"

definition loadDashboardData :: "world \<Rightarrow> world" where
  "loadDashboardData s =
     setTimeout DashboardLoaded 1000 (emit (ConsoleLog ''Loading dashboard data...'') s)"

text \<open>\<^verbatim>\<open>document.querySelector('.location-form').reset()\<close> puts the default values back.\<close>

definition reset_form :: "world \<Rightarrow> world" where
  "reset_form s = emit FormReset (s\<lparr>form := form_defaults s\<rparr>)"

record formData =
  name :: string
  address :: string
  latitude :: jsnum
  longitude :: jsnum
  propertyType :: string

definition submitLocationData_callback :: "world \<Rightarrow> world" where
  "submitLocationData_callback s =
     loadDashboardData
       (reset_form
          (hideModal
             (showToast ''Location added successfully!'' ''success'' s)))"

text \<open>The data is not used: the call to the API is simulated by the timer.\<close>

definition submitLocationData :: "formData \<Rightarrow> world \<Rightarrow> world" where
  "submitLocationData data s =
     setTimeout LocationAdded 1500 (showToast ''Adding location...'' ''info'' s)"

definition read_form :: "world \<Rightarrow> formData" where
  "read_form s =
     \<lparr>name = location_name (form s),
      address = location_address (form s),
      latitude = parseFloat (latitude_field (form s)),
      longitude = parseFloat (longitude_field (form s)),
      propertyType = property_type (form s)\<rparr>"

definition handleLocationSubmission :: "world \<Rightarrow> world" where
  "handleLocationSubmission s =
     (let formData = read_form s
      in if \<not> truthy_str (name formData) \<or> \<not> truthy_num (latitude formData)
            \<or> \<not> truthy_num (longitude formData)
         then showToast ''Please fill in all required fields'' ''error'' s
         else submitLocationData formData s)"

section \<open>Timers\<close>

text \<open>
  The callback of each task. A pending timer fires when the clock has reached its time; of
  the timers that are due, the one with the least time fires first, and of two with the
  same time the one that was set first.
\<close>

fun fire :: "task \<Rightarrow> world \<Rightarrow> world" where
  "fire (ToastExpire i) s = toast_expire i s"
| "fire LocationAdded s = submitLocationData_callback s"
| "fire DashboardLoaded s = loadDashboardData_callback s"

fun earliest :: "(nat \<times> task) list \<Rightarrow> (nat \<times> task) option" where
  "earliest [] = None"
| "earliest (x # xs) =
     (case earliest xs of
        None \<Rightarrow> Some x
      | Some y \<Rightarrow> if fst x \<le> fst y then Some x else Some y)"

fun weight :: "task \<Rightarrow> nat" where
  "weight (ToastExpire i) = 1"
| "weight LocationAdded = 4"
| "weight DashboardLoaded = 1"

definition pending_weight :: "world \<Rightarrow> nat" where
  "pending_weight s = sum_list (map (\<lambda>(d, k). weight k) (timers s))"

definition take_timer :: "nat \<times> task \<Rightarrow> world \<Rightarrow> world" where
  "take_timer x s = s\<lparr>timers := remove1 x (timers s), now := max (now s) (fst x)\<rparr>"

text \<open>
  Letting the time pass until \<open>t\<close>: the timers that are due by then fire in their order,
  also those that a callback sets on the way. Every callback sets fewer timers than it
  takes away, counted by weight, so this ends.
\<close>

function run_until :: "nat \<Rightarrow> world \<Rightarrow> world" where
  "run_until t s =
     (case earliest (timers s) of
        None \<Rightarrow> s\<lparr>now := max (now s) t\<rparr>
      | Some x \<Rightarrow>
          if fst x \<le> t then run_until t (fire (snd x) (take_timer x s))
          else s\<lparr>now := max (now s) t\<rparr>)"
  by pat_completeness auto
termination
proof (relation "measure (\<lambda>(t, s). pending_weight s)")
  show "wf (measure (\<lambda>(t, s). pending_weight s))" by simp
next
  fix t :: nat and s :: world and x :: "nat \<times> task"
  assume x: "earliest (timers s) = Some x"
  let ?w = "\<lambda>(d, k). weight k"
  have mem: "y \<in> set ys" if "earliest ys = Some y" for ys y
    using that by (induction ys arbitrary: y) (auto split: option.splits if_splits)
  have folded: "timers (foldl f s0 xs) = timers s0"
    if "\<And>s' y. timers (f s' y) = timers s'" for f :: "world \<Rightarrow> nat \<times> string \<Rightarrow> world" and s0 xs
    using that by (induction xs arbitrary: s0) auto
  have stats: "timers (animateStatNumbers s0) = timers s0" for s0
    unfolding animateStatNumbers_def by (rule folded) (auto simp: Let_def emit_def)
  have fired: "\<exists>new. timers (fire k s0) = timers s0 @ new \<and> sum_list (map ?w new) < weight k"
    for k s0
    by (cases k) (auto simp: toast_expire_def remove_toast_def submitLocationData_callback_def
        loadDashboardData_def reset_form_def hideModal_def showToast_def setTimeout_def Let_def
        loadDashboardData_callback_def stats emit_def)
  have removed: "sum_list (map ?w (remove1 y ys)) + ?w y = sum_list (map ?w ys)"
    if "y \<in> set ys" for y ys
    using that by (induction ys) auto
  obtain new where n: "timers (fire (snd x) (take_timer x s)) = timers (take_timer x s) @ new"
    "sum_list (map ?w new) < weight (snd x)"
    using fired by blast
  have "sum_list (map ?w (remove1 x (timers s))) + weight (snd x) = sum_list (map ?w (timers s))"
    using removed [OF mem [OF x]] by (simp add: case_prod_beta)
  with n have "pending_weight (fire (snd x) (take_timer x s)) < pending_weight s"
    by (simp add: pending_weight_def take_timer_def)
  then show "((t, fire (snd x) (take_timer x s)), (t, s)) \<in> measure (\<lambda>(t, s). pending_weight s)"
    by simp
qed

declare run_until.simps [simp del]

section \<open>What happens on the page\<close>

text \<open>
  Time passes, the user closes a toast, the user fills in and submits the location form, or
  some other part of the program shows a toast.
\<close>

datatype event =
    Elapse nat
  | CloseToast nat
  | SubmitLocation string string string
  | Toast string string

definition fill_form :: "string \<Rightarrow> string \<Rightarrow> string \<Rightarrow> world \<Rightarrow> world" where
  "fill_form n lat lng s =
     s\<lparr>form := (form s)\<lparr>location_name := n, latitude_field := lat, longitude_field := lng\<rparr>\<rparr>"

fun apply_event :: "event \<Rightarrow> world \<Rightarrow> world" where
  "apply_event (Elapse t) s = run_until t s"
| "apply_event (CloseToast i) s = dismissToast i s"
| "apply_event (SubmitLocation n lat lng) s = handleLocationSubmission (fill_form n lat lng s)"
| "apply_event (Toast msg type) s = showToast msg type s"

fun run :: "event list \<Rightarrow> world \<Rightarrow> world" where
  "run [] s = s"
| "run (e # es) s = run es (apply_event e s)"

section \<open>The temperature chart\<close>

text \<open>
  JavaScript computes with doubles: every operation gives the exact result, rounded. The
  rounding is the parameter \<open>fl\<close> of the functions that compute; what is proved of them
  holds for every rounding that is monotone and keeps the numbers named in the statement.
  Overflow to an infinity is outside this model of the finite numbers.

  A date is the number of its calendar day. \<open>today\<close> is the day of \<^verbatim>\<open>new Date()\<close>, and
  \<open>fmt\<close> stands for \<^verbatim>\<open>toLocaleDateString('en-US', { month: 'short', day: 'numeric' })\<close>.
  \<^verbatim>\<open>date.setDate(date.getDate() - i)\<close> goes back \<open>i\<close> calendar days.
\<close>

function date_labels_loop :: "(int \<Rightarrow> string) \<Rightarrow> int \<Rightarrow> int \<Rightarrow> string list \<Rightarrow> string list" where
  "date_labels_loop fmt today i labels =
     (if 0 \<le> i then date_labels_loop fmt today (i - 1) (labels @ [fmt (today - i)])
      else labels)"
  by pat_completeness auto
termination
  by (relation "measure (\<lambda>(fmt, today, i, labels). nat (i + 1))") auto

declare date_labels_loop.simps [simp del]

definition generateDateLabels :: "(int \<Rightarrow> string) \<Rightarrow> int \<Rightarrow> int \<Rightarrow> string list" where
  "generateDateLabels fmt today days = date_labels_loop fmt today (days - 1) []"

text \<open>\<open>random k\<close> is what the \<open>k\<close>-th call of \<^verbatim>\<open>Math.random()\<close> returns.\<close>

definition baseTemp :: real where
  "baseTemp = 24.5"

function temperature_loop ::
  "(real \<Rightarrow> real) \<Rightarrow> (nat \<Rightarrow> real) \<Rightarrow> int \<Rightarrow> int \<Rightarrow> real list \<Rightarrow> real list" where
  "temperature_loop fl random days i data =
     (if i < days then
        (let variation = fl (fl (random (nat i) - 0.5) * 8)
         in temperature_loop fl random days (i + 1) (data @ [fl (baseTemp + variation)]))
      else data)"
  by pat_completeness auto
termination
  by (relation "measure (\<lambda>(fl, random, days, i, data). nat (days - i))") auto

declare temperature_loop.simps [simp del]

definition generateTemperatureData :: "(real \<Rightarrow> real) \<Rightarrow> (nat \<Rightarrow> real) \<Rightarrow> int \<Rightarrow> real list" where
  "generateTemperatureData fl random days = temperature_loop fl random days 0 []"

text \<open>The value that the loop appends in the round \<open>i\<close>.\<close>

definition temperature_at :: "(real \<Rightarrow> real) \<Rightarrow> (nat \<Rightarrow> real) \<Rightarrow> int \<Rightarrow> real" where
  "temperature_at fl random i = fl (baseTemp + fl (fl (random (nat i) - 0.5) * 8))"

text \<open>The \<^verbatim>\<open>switch\<close> of \<^verbatim>\<open>updateChartData\<close>; the comparison of the cases is strict equality.\<close>

definition range_days :: "string \<Rightarrow> int" where
  "range_days timeRange =
     (if timeRange = ''7d'' then 7
      else if timeRange = ''30d'' then 30
      else if timeRange = ''90d'' then 90
      else if timeRange = ''1y'' then 365
      else 30)"

definition updateChartData ::
  "(int \<Rightarrow> string) \<Rightarrow> int \<Rightarrow> (real \<Rightarrow> real) \<Rightarrow> (nat \<Rightarrow> real) \<Rightarrow> string \<Rightarrow> world \<Rightarrow> world" where
  "updateChartData fmt today fl random timeRange s =
     (let days = range_days timeRange
      in case temperatureChart s of
           None \<Rightarrow> s
         | Some c \<Rightarrow>
             s\<lparr>temperatureChart :=
                 Some (c\<lparr>data_labels := generateDateLabels fmt today days,
                         data_dataset0 := generateTemperatureData fl random days,
                         updates := Suc (updates c)\<rparr>)\<rparr>)"

section \<open>The animation of a number\<close>

text \<open>
  The arguments of \<^verbatim>\<open>animateNumber\<close> are any numbers: \<^verbatim>\<open>animateStatNumbers\<close> passes what
  \<^verbatim>\<open>parseFloat\<close> gave, which may be an infinity. So the arithmetic of the animation is that
  of the doubles, with \<^verbatim>\<open>NaN\<close> and the infinities: an operation on two finite numbers gives
  the exact result rounded by \<open>rd\<close>, which gives the nearest double, or an infinity when the
  result is out of range; the other cases are those of IEEE 754. The two zeros are not told
  apart: every zero is the positive one.
\<close>

fun negative :: "jsnum \<Rightarrow> bool" where
  "negative NegInfinity = True"
| "negative (Finite x) = (x < 0)"
| "negative n = False"

fun js_neg :: "jsnum \<Rightarrow> jsnum" where
  "js_neg NaN = NaN"
| "js_neg PosInfinity = NegInfinity"
| "js_neg NegInfinity = PosInfinity"
| "js_neg (Finite x) = Finite (- x)"

fun js_add :: "(real \<Rightarrow> jsnum) \<Rightarrow> jsnum \<Rightarrow> jsnum \<Rightarrow> jsnum" where
  "js_add rd (Finite x) (Finite y) = rd (x + y)"
| "js_add rd NaN b = NaN"
| "js_add rd a NaN = NaN"
| "js_add rd PosInfinity NegInfinity = NaN"
| "js_add rd NegInfinity PosInfinity = NaN"
| "js_add rd PosInfinity b = PosInfinity"
| "js_add rd a PosInfinity = PosInfinity"
| "js_add rd NegInfinity b = NegInfinity"
| "js_add rd a NegInfinity = NegInfinity"

definition js_sub :: "(real \<Rightarrow> jsnum) \<Rightarrow> jsnum \<Rightarrow> jsnum \<Rightarrow> jsnum" where
  "js_sub rd a b = js_add rd a (js_neg b)"

text \<open>An infinity times zero is \<^verbatim>\<open>NaN\<close>; otherwise an infinite product has the sign of the signs.\<close>

fun js_mul :: "(real \<Rightarrow> jsnum) \<Rightarrow> jsnum \<Rightarrow> jsnum \<Rightarrow> jsnum" where
  "js_mul rd (Finite x) (Finite y) = rd (x * y)"
| "js_mul rd NaN b = NaN"
| "js_mul rd a NaN = NaN"
| "js_mul rd a b =
     (if a = Finite 0 \<or> b = Finite 0 then NaN
      else if negative a \<noteq> negative b then NegInfinity
      else PosInfinity)"

text \<open>
  Zero by zero and infinity by infinity are \<^verbatim>\<open>NaN\<close>; another number by zero is an infinity
  with the sign of the number; a finite number by an infinity is zero.
\<close>

fun js_div :: "(real \<Rightarrow> jsnum) \<Rightarrow> jsnum \<Rightarrow> jsnum \<Rightarrow> jsnum" where
  "js_div rd NaN b = NaN"
| "js_div rd a NaN = NaN"
| "js_div rd (Finite x) (Finite y) =
     (if y = 0 then (if x = 0 then NaN else if x < 0 then NegInfinity else PosInfinity)
      else rd (x / y))"
| "js_div rd (Finite x) b = Finite 0"
| "js_div rd a (Finite y) = (if negative a \<noteq> (y < 0) then NegInfinity else PosInfinity)"
| "js_div rd a b = NaN"

text \<open>\<^verbatim>\<open>a < b\<close> is false when one of the two is \<^verbatim>\<open>NaN\<close>.\<close>

fun js_lt :: "jsnum \<Rightarrow> jsnum \<Rightarrow> bool" where
  "js_lt NaN b = False"
| "js_lt a NaN = False"
| "js_lt (Finite x) (Finite y) = (x < y)"
| "js_lt NegInfinity NegInfinity = False"
| "js_lt NegInfinity b = True"
| "js_lt a PosInfinity = (a \<noteq> PosInfinity)"
| "js_lt a b = False"

definition js_le :: "jsnum \<Rightarrow> jsnum \<Rightarrow> bool" where
  "js_le a b = (js_lt a b \<or> (a = b \<and> a \<noteq> NaN))"

text \<open>\<^verbatim>\<open>Math.min(a, b)\<close> is \<^verbatim>\<open>NaN\<close> when one of the two is.\<close>

definition js_min :: "jsnum \<Rightarrow> jsnum \<Rightarrow> jsnum" where
  "js_min a b = (if a = NaN \<or> b = NaN then NaN else if js_lt b a then b else a)"


definition progress_at :: "(real \<Rightarrow> jsnum) \<Rightarrow> int \<Rightarrow> jsnum \<Rightarrow> int \<Rightarrow> jsnum" where
  "progress_at rd startTime duration t =
     (let elapsed = Finite (real_of_int (t - startTime))
      in js_min (js_div rd elapsed duration) (Finite 1))"

definition current_at :: "(real \<Rightarrow> jsnum) \<Rightarrow> jsnum \<Rightarrow> jsnum \<Rightarrow> int \<Rightarrow> jsnum \<Rightarrow> int \<Rightarrow> jsnum" where
  "current_at rd start end startTime duration t =
     (let range = js_sub rd end start
      in js_add rd start (js_mul rd range (progress_at rd startTime duration t)))"






section \<open>The API client\<close>

record ClimateAPI =
  baseURL :: string
  token :: "string option"

text \<open>\<^verbatim>\<open>localStorage.getItem\<close> gives \<^verbatim>\<open>null\<close> for a key that is not stored.\<close>

definition new_ClimateAPI :: "(string \<rightharpoonup> string) \<Rightarrow> ClimateAPI" where
  "new_ClimateAPI localStorage = \<lparr>baseURL = ''/api/v1'', token = localStorage ''auth_token''\<rparr>"

text \<open>
  The default headers. \<^verbatim>\<open>...(this.token && {...})\<close> adds the bearer header when the token
  is truthy: neither \<^verbatim>\<open>null\<close> nor the empty string.
\<close>

definition default_headers :: "ClimateAPI \<Rightarrow> (string \<rightharpoonup> string)" where
  "default_headers api =
     [''Content-Type'' \<mapsto> ''application/json''] ++
     (case token api of
        None \<Rightarrow> Map.empty
      | Some t \<Rightarrow> if truthy_str t then [''Authorization'' \<mapsto> ''Bearer '' @ t] else Map.empty)"

text \<open>
  \<^verbatim>\<open>{ headers: {...}, ...options }\<close>: every field that \<open>options\<close> has takes the place of the
  field written before it.
\<close>

definition request_config :: "ClimateAPI \<Rightarrow> config \<Rightarrow> config" where
  "request_config api options =
     \<lparr>headers = (case headers options of
                   None \<Rightarrow> Some (default_headers api)
                 | Some h \<Rightarrow> Some h),
      http_method = http_method options,
      body = body options\<rparr>"

text \<open>
  What \<^verbatim>\<open>fetch\<close> answers: the promise is rejected, or it resolves to a response with a
  status and a body that \<^verbatim>\<open>response.json()\<close> parses or fails to parse. \<^verbatim>\<open>response.ok\<close>
  is true for the statuses from 200 to 299.
\<close>

record 'j response =
  status :: nat
  json :: "js_error + 'j"

datatype 'j fetch_outcome = Rejected js_error | Resolved "'j response"

definition response_ok :: "'j response \<Rightarrow> bool" where
  "response_ok r = (200 \<le> status r \<and> status r \<le> 299)"

text \<open>The decimal digits of a number, as the template string writes the status.\<close>

definition digit_char :: "nat \<Rightarrow> char" where
  "digit_char n = ''0123456789'' ! n"

fun show_nat :: "nat \<Rightarrow> string" where
  "show_nat n =
     (if n < 10 then [digit_char n]
      else show_nat (n div 10) @ [digit_char (n mod 10)])"

declare show_nat.simps [simp del]

text \<open>
  \<^verbatim>\<open>request\<close>, with the two \<^verbatim>\<open>await\<close>s run to their end: the result is the error thrown
  (\<open>Inl\<close>) or the value returned (\<open>Inr\<close>).
\<close>

definition request ::
  "(string \<Rightarrow> config \<Rightarrow> 'j fetch_outcome) \<Rightarrow> ClimateAPI \<Rightarrow> string \<Rightarrow> config \<Rightarrow> world
     \<Rightarrow> (js_error + 'j) \<times> world" where
  "request fetch api endpoint options s =
     (let config = request_config api options;
          url = baseURL api @ endpoint;
          s1 = s\<lparr>fetches := fetches s @ [(url, config)]\<rparr>;
          tried = (case fetch url config of
                     Rejected e \<Rightarrow> Inl e
                   | Resolved response \<Rightarrow>
                       if \<not> response_ok response
                       then Inl (Error (''HTTP error! status: '' @ show_nat (status response)))
                       else json response)
      in case tried of
           Inl error \<Rightarrow>
             (Inl error,
              showToast ''API request failed'' ''error''
                (emit (ConsoleError ''API request failed:'' error) s1))
         | Inr v \<Rightarrow> (Inr v, s1))"

section \<open>Notions that the statements use\<close>

text \<open>The four things that the callback of \<^verbatim>\<open>submitLocationData\<close> does, at the time \<open>u\<close>.\<close>

definition added_block :: "nat \<Rightarrow> (nat \<times> effect) list" where
  "added_block u = [(u, ToastShown ''Location added successfully!'' ''success''),
      (u, ModalHidden), (u, FormReset), (u, ConsoleLog ''Loading dashboard data...'')]"

text \<open>
  The identities of the toasts are fresh: every toast of the container and every toast that
  a pending timer is to remove was created before, with a smaller number than the next one.
\<close>

definition fresh_ids :: "world \<Rightarrow> bool" where
  "fresh_ids s =
     ((\<forall>x \<in> set (toast_container s). tid x < next_tid s) \<and>
      (\<forall>(d, k) \<in> set (timers s). case k of ToastExpire i \<Rightarrow> i < next_tid s | _ \<Rightarrow> True))"

text \<open>
  The toast \<open>i\<close> is shown, and no timer that removes it is due before \<open>d0\<close>.
\<close>

definition waiting :: "nat \<Rightarrow> nat \<Rightarrow> world \<Rightarrow> bool" where
  "waiting i d0 s =
     (attached i s \<and> i < next_tid s \<and>
      (\<forall>(d, k) \<in> set (timers s). k = ToastExpire i \<longrightarrow> d0 \<le> d))"

section \<open>A page to run the functions on\<close>

definition empty_form :: location_form where
  "empty_form = \<lparr>location_name = [], location_address = [], latitude_field = [],
                  longitude_field = [], property_type = ''residential''\<rparr>"

definition page0 :: world where
  "page0 = \<lparr>now = 0, toast_container = [], next_tid = 0, timers = [], trace = [],
             form = empty_form, form_defaults = empty_form,
             location_modal = \<lparr>visibility = ''visible'', opacity = ''1''\<rparr>,
             stat_numbers = [''24.5'', ''n/a''], fetches = [],
             temperatureChart = None\<rparr>"

text \<open>Three servers: one that is not found, one that is down, one that answers.\<close>

definition fetch_404 :: "string \<Rightarrow> config \<Rightarrow> string fetch_outcome" where
  "fetch_404 url cfg = Resolved \<lparr>status = 404, json = Inl (SyntaxError ''Unexpected token'')\<rparr>"

definition fetch_down :: "string \<Rightarrow> config \<Rightarrow> string fetch_outcome" where
  "fetch_down url cfg = Rejected (TypeError ''Failed to fetch'')"

definition fetch_200 :: "string \<Rightarrow> config \<Rightarrow> string fetch_outcome" where
  "fetch_200 url cfg = Resolved \<lparr>status = 200, json = Inr ''risk: low''\<rparr>"

text \<open>And one that answers with no content.\<close>

definition fetch_204 :: "string \<Rightarrow> config \<Rightarrow> string fetch_outcome" where
  "fetch_204 url cfg
     = Resolved \<lparr>status = 204, json = Inl (SyntaxError ''Unexpected end of JSON input'')\<rparr>"

section \<open>Facts about the timers\<close>

lemmas parseFloat_eval = parseFloat_def split_sign_def is_white_def is_digit_def digit_val_def
  digits_val_def exponent_part_def scale10_def to_double_def Let_def

lemma fresh_ids_iff:
  "fresh_ids s \<longleftrightarrow>
     (\<forall>x \<in> set (toast_container s). tid x < next_tid s) \<and>
     (\<forall>d i. (d, ToastExpire i) \<in> set (timers s) \<longrightarrow> i < next_tid s)"
proof -
  have "(\<forall>(d, k) \<in> set ts. case k of ToastExpire i \<Rightarrow> i < n | _ \<Rightarrow> True)
      \<longleftrightarrow> (\<forall>d i. (d, ToastExpire i) \<in> set ts \<longrightarrow> i < n)" for ts :: "(nat \<times> task) list" and n
    by (fastforce split: task.splits)
  then show ?thesis by (simp add: fresh_ids_def)
qed

lemma waiting_iff:
  "waiting i d0 s \<longleftrightarrow>
     attached i s \<and> i < next_tid s \<and> (\<forall>d. (d, ToastExpire i) \<in> set (timers s) \<longrightarrow> d0 \<le> d)"
  by (auto simp: waiting_def)

lemma earliest_mem: "earliest xs = Some x \<Longrightarrow> x \<in> set xs"
  by (induction xs arbitrary: x) (auto split: option.splits if_splits)

lemma timers_emit [simp]: "timers (emit e s) = timers s"
  by (simp add: emit_def)

lemma timers_animateStatNumbers [simp]: "timers (animateStatNumbers s) = timers s"
proof -
  have "timers (foldl (\<lambda>s' (i, finalValue).
              let numericValue = parseFloat finalValue
              in if numericValue \<noteq> NaN then emit (AnimateNumber i numericValue) s' else s')
           s xs) = timers s" for xs
    by (induction xs arbitrary: s) (auto simp: Let_def)
  then show ?thesis by (simp add: animateStatNumbers_def)
qed

lemma timers_fire:
  "\<exists>new. timers (fire k s) = timers s @ new
         \<and> sum_list (map (\<lambda>(d, k). weight k) new) < weight k"
  by (cases k) (auto simp: toast_expire_def remove_toast_def submitLocationData_callback_def
      loadDashboardData_def reset_form_def hideModal_def showToast_def setTimeout_def Let_def
      loadDashboardData_callback_def)

lemma foldl_keeps:
  assumes "\<And>s' y. g (f s' y) = g s'"
  shows "g (foldl f s xs) = g s"
  using assms by (induction xs arbitrary: s) auto

lemma foldl_trace_grows:
  assumes "\<And>s' y. \<exists>e. trace (f s' y) = trace s' @ e"
  shows "\<exists>e. trace (foldl f s xs) = trace s @ e"
proof (induction xs arbitrary: s)
  case Nil
  then show ?case by simp
next
  case (Cons x xs)
  obtain e1 where "trace (f s x) = trace s @ e1" using assms by blast
  moreover obtain e2 where "trace (foldl f (f s x) xs) = trace (f s x) @ e2"
    using Cons.IH by blast
  ultimately show ?case by simp
qed

lemma animateStatNumbers_keeps [simp]:
  "toast_container (animateStatNumbers s) = toast_container s"
  "next_tid (animateStatNumbers s) = next_tid s"
  "now (animateStatNumbers s) = now s"
  "fetches (animateStatNumbers s) = fetches s"
  unfolding animateStatNumbers_def
  by (rule foldl_keeps; auto simp: Let_def emit_def)+

lemma animateStatNumbers_trace: "\<exists>e. trace (animateStatNumbers s) = trace s @ e"
  unfolding animateStatNumbers_def
  by (rule foldl_trace_grows) (auto simp: Let_def emit_def)

lemmas callback_defs = toast_expire_def remove_toast_def submitLocationData_callback_def
  loadDashboardData_def reset_form_def hideModal_def showToast_def setTimeout_def
  loadDashboardData_callback_def emit_def Let_def

lemma trace_fire: "\<exists>e. trace (fire k s) = trace s @ e"
proof (cases k)
  case (ToastExpire i)
  then show ?thesis by (simp add: callback_defs)
next
  case LocationAdded
  then show ?thesis by (simp add: callback_defs)
next
  case DashboardLoaded
  obtain e where "trace (animateStatNumbers s) = trace s @ e"
    using animateStatNumbers_trace by blast
  with DashboardLoaded show ?thesis by (simp add: callback_defs)
qed

lemma trace_take_timer [simp]: "trace (take_timer x s) = trace s"
  by (simp add: take_timer_def)

lemma trace_run_until: "\<exists>e. trace (run_until t s) = trace s @ e"
proof (induction t s rule: run_until.induct)
  case (1 t s)
  show ?case
  proof (cases "earliest (timers s)")
    case None
    then show ?thesis by (subst run_until.simps) simp
  next
    case (Some x)
    show ?thesis
    proof (cases "fst x \<le> t")
      case True
      obtain e1 where e1: "trace (fire (snd x) (take_timer x s)) = trace s @ e1"
        using trace_fire [of "snd x" "take_timer x s"] by auto
      obtain e2 where "trace (run_until t (fire (snd x) (take_timer x s)))
          = trace (fire (snd x) (take_timer x s)) @ e2"
        using "1.IH" [OF Some True] by blast
      with e1 Some True show ?thesis by (subst run_until.simps) simp
    next
      case False
      with Some show ?thesis by (subst run_until.simps) simp
    qed
  qed
qed

lemma earliest_None [simp]: "earliest xs = None \<longleftrightarrow> xs = []"
  by (cases xs) (auto split: option.splits)

lemma earliest_least: "earliest xs = Some x \<Longrightarrow> y \<in> set xs \<Longrightarrow> fst x \<le> fst y"
  by (induction xs arbitrary: x) (auto split: option.splits if_splits)

lemma in_timers_fire: "x \<in> set (timers s) \<Longrightarrow> x \<in> set (timers (fire k s))"
  using timers_fire [of k s] by auto

lemma in_timers_take: "y \<in> set (timers s) \<Longrightarrow> y \<noteq> x \<Longrightarrow> y \<in> set (timers (take_timer x s))"
  by (simp add: take_timer_def)

lemma callback_trace: "trace (submitLocationData_callback s) = trace s @ added_block (now s)"
  by (simp add: callback_defs added_block_def)

lemma run_until_fires_LocationAdded:
  "(d, LocationAdded) \<in> set (timers s) \<Longrightarrow> d \<le> t \<Longrightarrow>
   \<exists>pre post u. d \<le> u \<and> trace (run_until t s) = trace s @ pre @ added_block u @ post"
proof (induction t s rule: run_until.induct)
  case (1 t s)
  from "1.prems" obtain x where x: "earliest (timers s) = Some x"
    by (cases "earliest (timers s)") auto
  have le: "fst x \<le> t" using earliest_least [OF x "1.prems"(1)] "1.prems"(2) by simp
  let ?s2 = "fire (snd x) (take_timer x s)"
  have unfold: "run_until t s = run_until t ?s2"
    using x le by (subst run_until.simps) simp
  show ?case
  proof (cases "x = (d, LocationAdded)")
    case True
    then have "trace ?s2 = trace s @ added_block (max (now s) d)"
      by (simp add: callback_trace) (simp add: take_timer_def)
    moreover obtain e where "trace (run_until t ?s2) = trace ?s2 @ e"
      using trace_run_until by blast
    ultimately have "trace (run_until t s) = trace s @ [] @ added_block (max (now s) d) @ e"
      using unfold by simp
    moreover have "d \<le> max (now s) d" by simp
    ultimately show ?thesis by blast
  next
    case False
    have "(d, LocationAdded) \<in> set (timers ?s2)"
      using "1.prems"(1) False by (intro in_timers_fire in_timers_take) auto
    from "1.IH" [OF x le this "1.prems"(2)]
    obtain pre post u where u: "d \<le> u"
      "trace (run_until t ?s2) = trace ?s2 @ pre @ added_block u @ post" by blast
    obtain e where "trace ?s2 = trace s @ e"
      using trace_fire [of "snd x" "take_timer x s"] by auto
    with u unfold have "trace (run_until t s) = trace s @ (e @ pre) @ added_block u @ post"
      by simp
    with u(1) show ?thesis by blast
  qed
qed

lemma next_tid_fire: "next_tid s \<le> next_tid (fire k s)"
  by (cases k) (simp_all add: callback_defs)

lemma next_tid_take_timer [simp]: "next_tid (take_timer x s) = next_tid s"
  by (simp add: take_timer_def)

lemma container_take_timer [simp]: "toast_container (take_timer x s) = toast_container s"
  by (simp add: take_timer_def)

lemma attached_take_timer [simp]: "attached i (take_timer x s) = attached i s"
  by (simp add: attached_def)

subsection \<open>A toast that is gone stays gone\<close>

lemma gone_fire: "\<not> attached i s \<Longrightarrow> i < next_tid s \<Longrightarrow> \<not> attached i (fire k s)"
  by (cases k) (auto simp: callback_defs attached_def)

lemma gone_run_until:
  "\<not> attached i s \<Longrightarrow> i < next_tid s \<Longrightarrow>
   \<not> attached i (run_until t s) \<and> i < next_tid (run_until t s)"
proof (induction t s rule: run_until.induct)
  case (1 t s)
  show ?case
  proof (cases "earliest (timers s)")
    case None
    with "1.prems" show ?thesis by (subst (1 2) run_until.simps) (simp add: attached_def)
  next
    case (Some x)
    show ?thesis
    proof (cases "fst x \<le> t")
      case True
      let ?s2 = "fire (snd x) (take_timer x s)"
      have "\<not> attached i ?s2" using "1.prems" by (intro gone_fire) simp_all
      moreover have "i < next_tid ?s2"
        using "1.prems"(2) next_tid_fire [of "take_timer x s" "snd x"] by simp
      ultimately have "\<not> attached i (run_until t ?s2) \<and> i < next_tid (run_until t ?s2)"
        by (rule "1.IH" [OF Some True])
      with Some True show ?thesis by (subst (1 2) run_until.simps) simp
    next
      case False
      with Some "1.prems" show ?thesis by (subst (1 2) run_until.simps) (simp add: attached_def)
    qed
  qed
qed

lemma expire_run_until:
  "(d, ToastExpire i) \<in> set (timers s) \<Longrightarrow> d \<le> t \<Longrightarrow> i < next_tid s \<Longrightarrow>
   \<not> attached i (run_until t s) \<and> i < next_tid (run_until t s)"
proof (induction t s rule: run_until.induct)
  case (1 t s)
  from "1.prems" obtain x where x: "earliest (timers s) = Some x"
    by (cases "earliest (timers s)") auto
  have le: "fst x \<le> t" using earliest_least [OF x "1.prems"(1)] "1.prems"(2) by simp
  let ?s2 = "fire (snd x) (take_timer x s)"
  have unfold: "run_until t s = run_until t ?s2"
    using x le by (subst run_until.simps) simp
  have lt: "i < next_tid ?s2"
    using "1.prems"(3) next_tid_fire [of "take_timer x s" "snd x"] by simp
  show ?case
  proof (cases "x = (d, ToastExpire i)")
    case True
    then have "\<not> attached i ?s2"
      by (auto simp: toast_expire_def remove_toast_def attached_def)
    then show ?thesis unfolding unfold using lt by (rule gone_run_until)
  next
    case False
    have "(d, ToastExpire i) \<in> set (timers ?s2)"
      using "1.prems"(1) False by (intro in_timers_fire in_timers_take) auto
    from "1.IH" [OF x le this "1.prems"(2) lt] show ?thesis unfolding unfold .
  qed
qed

subsection \<open>A toast stays until its timer or its button\<close>

lemma waiting_fire:
  "waiting i d0 s \<Longrightarrow> k \<noteq> ToastExpire i \<Longrightarrow> waiting i d0 (fire k s)"
  by (cases k) (auto simp: callback_defs attached_def waiting_iff)

lemma waiting_take_timer: "waiting i d0 s \<Longrightarrow> waiting i d0 (take_timer x s)"
  by (auto simp: waiting_iff take_timer_def attached_def dest: notin_set_remove1)

lemma waiting_now [simp]: "waiting i d0 (s\<lparr>now := n\<rparr>) = waiting i d0 s"
  by (simp add: waiting_iff attached_def)

lemma waiting_run_until:
  "waiting i d0 s \<Longrightarrow> t < d0 \<Longrightarrow> waiting i d0 (run_until t s)"
proof (induction t s rule: run_until.induct)
  case (1 t s)
  show ?case
  proof (cases "earliest (timers s)")
    case None
    with "1.prems" show ?thesis by (subst run_until.simps) simp
  next
    case (Some x)
    show ?thesis
    proof (cases "fst x \<le> t")
      case True
      have mem: "x \<in> set (timers s)" using Some by (rule earliest_mem)
      have "snd x \<noteq> ToastExpire i"
      proof
        assume "snd x = ToastExpire i"
        with mem have "(fst x, ToastExpire i) \<in> set (timers s)" by (metis prod.collapse)
        with "1.prems"(1) have "d0 \<le> fst x" by (simp add: waiting_iff)
        with True "1.prems"(2) show False by simp
      qed
      then have "waiting i d0 (fire (snd x) (take_timer x s))"
        using "1.prems"(1) by (intro waiting_fire waiting_take_timer)
      from "1.IH" [OF Some True this "1.prems"(2)] Some True
      show ?thesis by (subst run_until.simps) simp
    next
      case False
      with Some "1.prems" show ?thesis by (subst run_until.simps) simp
    qed
  qed
qed

subsection \<open>Through the events\<close>

lemma next_tid_run_until: "next_tid s \<le> next_tid (run_until t s)"
proof (induction t s rule: run_until.induct)
  case (1 t s)
  show ?case
  proof (cases "earliest (timers s)")
    case None
    then show ?thesis by (subst run_until.simps) simp
  next
    case (Some x)
    show ?thesis
    proof (cases "fst x \<le> t")
      case True
      have "next_tid s \<le> next_tid (fire (snd x) (take_timer x s))"
        using next_tid_fire [of "take_timer x s" "snd x"] by simp
      also have "\<dots> \<le> next_tid (run_until t (fire (snd x) (take_timer x s)))"
        by (rule "1.IH" [OF Some True])
      finally show ?thesis using Some True by (subst run_until.simps) simp
    next
      case False
      with Some show ?thesis by (subst run_until.simps) simp
    qed
  qed
qed

lemma pending_run_until:
  "y \<in> set (timers s) \<Longrightarrow> t < fst y \<Longrightarrow> y \<in> set (timers (run_until t s))"
proof (induction t s rule: run_until.induct)
  case (1 t s)
  show ?case
  proof (cases "earliest (timers s)")
    case None
    with "1.prems" show ?thesis by simp
  next
    case (Some x)
    show ?thesis
    proof (cases "fst x \<le> t")
      case True
      with "1.prems"(2) have "y \<noteq> x" by auto
      with "1.prems"(1) have "y \<in> set (timers (fire (snd x) (take_timer x s)))"
        by (intro in_timers_fire in_timers_take)
      from "1.IH" [OF Some True this "1.prems"(2)] Some True
      show ?thesis by (subst run_until.simps) simp
    next
      case False
      with Some "1.prems" show ?thesis by (subst run_until.simps) simp
    qed
  qed
qed

lemmas event_defs = dismissToast_def handleLocationSubmission_def submitLocationData_def
  fill_form_def callback_defs

lemma next_tid_apply_event: "next_tid s \<le> next_tid (apply_event e s)"
  by (cases e) (simp_all add: next_tid_run_until event_defs)

lemma next_tid_run: "next_tid s \<le> next_tid (run evs s)"
proof (induction evs arbitrary: s)
  case Nil
  then show ?case by simp
next
  case (Cons e evs)
  have "next_tid s \<le> next_tid (apply_event e s)" by (rule next_tid_apply_event)
  also have "\<dots> \<le> next_tid (run evs (apply_event e s))" by (rule Cons.IH)
  finally show ?case by simp
qed

lemma trace_apply_event: "\<exists>e. trace (apply_event ev s) = trace s @ e"
  by (cases ev) (simp_all add: trace_run_until event_defs)

lemma trace_run: "\<exists>e. trace (run evs s) = trace s @ e"
proof (induction evs arbitrary: s)
  case Nil
  then show ?case by simp
next
  case (Cons ev evs)
  obtain e1 where "trace (apply_event ev s) = trace s @ e1"
    using trace_apply_event by blast
  moreover obtain e2 where "trace (run evs (apply_event ev s)) = trace (apply_event ev s) @ e2"
    using Cons.IH by blast
  ultimately show ?case by simp
qed

lemma pending_apply_event:
  "y \<in> set (timers s) \<Longrightarrow> (\<And>t. e = Elapse t \<Longrightarrow> t < fst y) \<Longrightarrow> y \<in> set (timers (apply_event e s))"
  by (cases e) (simp_all add: pending_run_until event_defs)

lemma gone_apply_event:
  assumes "\<not> attached i s" "i < next_tid s"
  shows "\<not> attached i (apply_event e s)"
proof (cases e)
  case (Elapse t)
  then show ?thesis using gone_run_until [OF assms, of t] by simp
qed (use assms in \<open>auto simp: event_defs attached_def\<close>)

lemma gone_run:
  "\<not> attached i s \<Longrightarrow> i < next_tid s \<Longrightarrow> \<not> attached i (run evs s) \<and> i < next_tid (run evs s)"
proof (induction evs arbitrary: s)
  case Nil
  then show ?case by simp
next
  case (Cons e evs)
  have "\<not> attached i (apply_event e s)" using Cons.prems by (rule gone_apply_event)
  moreover have "i < next_tid (apply_event e s)"
    using Cons.prems(2) next_tid_apply_event [of s e] by simp
  ultimately show ?case using Cons.IH by simp
qed

lemma expire_run:
  "(d, ToastExpire i) \<in> set (timers s) \<Longrightarrow> i < next_tid s \<Longrightarrow> Elapse t \<in> set evs \<Longrightarrow> d \<le> t
   \<Longrightarrow> \<not> attached i (run evs s)"
proof (induction evs arbitrary: s)
  case Nil
  then show ?case by simp
next
  case (Cons e evs)
  show ?case
  proof (cases "\<exists>t'. e = Elapse t' \<and> d \<le> t'")
    case True
    then obtain t' where e: "e = Elapse t'" and t': "d \<le> t'" by blast
    have "\<not> attached i (run_until t' s) \<and> i < next_tid (run_until t' s)"
      using Cons.prems(1) t' Cons.prems(2) by (rule expire_run_until)
    then show ?thesis using gone_run [of i "run_until t' s" evs] by (simp add: e)
  next
    case False
    then have in_rest: "Elapse t \<in> set evs" using Cons.prems(3,4) by auto
    have "(d, ToastExpire i) \<in> set (timers (apply_event e s))"
      using Cons.prems(1) False by (intro pending_apply_event) auto
    moreover have "i < next_tid (apply_event e s)"
      using Cons.prems(2) next_tid_apply_event [of s e] by simp
    ultimately show ?thesis using Cons.IH in_rest Cons.prems(4) by simp
  qed
qed

lemma waiting_apply_event:
  assumes "waiting i d0 s" "e \<noteq> CloseToast i" "\<And>t. e = Elapse t \<Longrightarrow> t < d0"
  shows "waiting i d0 (apply_event e s)"
proof (cases e)
  case (Elapse t)
  then show ?thesis using waiting_run_until [OF assms(1), of t] assms(3) by simp
qed (use assms in \<open>auto simp: event_defs waiting_iff attached_def\<close>)

lemma waiting_run:
  "waiting i d0 s \<Longrightarrow> CloseToast i \<notin> set evs \<Longrightarrow> (\<And>t. Elapse t \<in> set evs \<Longrightarrow> t < d0)
   \<Longrightarrow> waiting i d0 (run evs s)"
proof (induction evs arbitrary: s)
  case Nil
  then show ?case by simp
next
  case (Cons e evs)
  have "waiting i d0 (apply_event e s)"
    using Cons.prems by (intro waiting_apply_event) auto
  then show ?case using Cons.IH Cons.prems by simp
qed

lemma added_run:
  "(d, LocationAdded) \<in> set (timers s) \<Longrightarrow> Elapse t \<in> set evs \<Longrightarrow> d \<le> t \<Longrightarrow>
   \<exists>pre post u. d \<le> u \<and> trace (run evs s) = trace s @ pre @ added_block u @ post"
proof (induction evs arbitrary: s)
  case Nil
  then show ?case by simp
next
  case (Cons e evs)
  show ?case
  proof (cases "\<exists>t'. e = Elapse t' \<and> d \<le> t'")
    case True
    then obtain t' where e: "e = Elapse t'" and t': "d \<le> t'" by blast
    obtain pre post u where u: "d \<le> u"
      "trace (run_until t' s) = trace s @ pre @ added_block u @ post"
      using run_until_fires_LocationAdded [OF Cons.prems(1) t'] by blast
    obtain e2 where "trace (run evs (run_until t' s)) = trace (run_until t' s) @ e2"
      using trace_run by blast
    with u have "trace (run (e # evs) s) = trace s @ pre @ added_block u @ (post @ e2)"
      by (simp add: e)
    with u(1) show ?thesis by blast
  next
    case False
    then have in_rest: "Elapse t \<in> set evs" using Cons.prems(2,3) by auto
    have "(d, LocationAdded) \<in> set (timers (apply_event e s))"
      using Cons.prems(1) False by (intro pending_apply_event) auto
    from Cons.IH [OF this in_rest Cons.prems(3)]
    obtain pre post u where u: "d \<le> u"
      "trace (run evs (apply_event e s)) = trace (apply_event e s) @ pre @ added_block u @ post"
      by blast
    obtain e1 where "trace (apply_event e s) = trace s @ e1"
      using trace_apply_event by blast
    with u have "trace (run (e # evs) s) = trace s @ (e1 @ pre) @ added_block u @ post"
      by simp
    with u(1) show ?thesis by blast
  qed
qed

subsection \<open>The identities stay fresh\<close>

lemma fresh_ids_page0: "fresh_ids page0"
  by (simp add: fresh_ids_iff page0_def)

lemma fresh_ids_take_timer: "fresh_ids s \<Longrightarrow> fresh_ids (take_timer x s)"
  using set_remove1_subset [of x "timers s"] by (auto simp: fresh_ids_iff take_timer_def)

lemma fresh_ids_fire: "fresh_ids s \<Longrightarrow> fresh_ids (fire k s)"
  by (cases k) (auto simp: fresh_ids_iff callback_defs less_Suc_eq)

lemma fresh_ids_run_until: "fresh_ids s \<Longrightarrow> fresh_ids (run_until t s)"
proof (induction t s rule: run_until.induct)
  case (1 t s)
  show ?case
  proof (cases "earliest (timers s)")
    case None
    with "1.prems" show ?thesis by (subst run_until.simps) (simp add: fresh_ids_iff)
  next
    case (Some x)
    show ?thesis
    proof (cases "fst x \<le> t")
      case True
      have "fresh_ids (fire (snd x) (take_timer x s))"
        using "1.prems" by (intro fresh_ids_fire fresh_ids_take_timer)
      from "1.IH" [OF Some True this] Some True show ?thesis
        by (subst run_until.simps) simp
    next
      case False
      with Some "1.prems" show ?thesis by (subst run_until.simps) (simp add: fresh_ids_iff)
    qed
  qed
qed

lemma fresh_ids_apply_event:
  assumes "fresh_ids s"
  shows "fresh_ids (apply_event e s)"
proof (cases e)
  case (Elapse t)
  then show ?thesis using fresh_ids_run_until [OF assms, of t] by simp
qed (use assms in \<open>auto simp: fresh_ids_iff event_defs less_Suc_eq\<close>)

lemma fresh_ids_run: "fresh_ids s \<Longrightarrow> fresh_ids (run evs s)"
  by (induction evs arbitrary: s) (simp_all add: fresh_ids_apply_event)

section \<open>Validation of the location form\<close>

text \<open>
  C1. When the name field is empty, or the latitude field does not parse as a number, or
  the longitude field does not parse as a number, \<^verbatim>\<open>handleLocationSubmission\<close> does
  nothing but show one toast: the toast has the message ``Please fill in all required
  fields'' and the type error, it is the only new entry of the trace, no request is issued,
  and the only new timer is the one that expires this toast, so the submission step has not
  been started.
\<close>

theorem handleLocationSubmission_rejects:
  assumes "location_name (form s) = [] \<or> parseFloat (latitude_field (form s)) = NaN
           \<or> parseFloat (longitude_field (form s)) = NaN"
  shows "handleLocationSubmission s = showToast ''Please fill in all required fields'' ''error'' s
       \<and> trace (handleLocationSubmission s)
           = trace s @ [(now s, ToastShown ''Please fill in all required fields'' ''error'')]
       \<and> toast_container (handleLocationSubmission s)
           = toast_container s @ [\<lparr>tid = next_tid s, className = ''toast toast-error'',
                                   icon = ''exclamation-triangle'',
                                   message = ''Please fill in all required fields''\<rparr>]
       \<and> fetches (handleLocationSubmission s) = fetches s
       \<and> timers (handleLocationSubmission s) = timers s @ [(now s + 5000, ToastExpire (next_tid s))]"
proof -
  have "handleLocationSubmission s = showToast ''Please fill in all required fields'' ''error'' s"
    using assms by (auto simp: handleLocationSubmission_def read_form_def truthy_str_def Let_def)
  then show ?thesis
    by (simp add: showToast_def emit_def setTimeout_def toast_icon_def Let_def)
qed

theorem handleLocationSubmission_rejects_witness:
  "trace (handleLocationSubmission (fill_form ''Home'' ''north'' ''-80.19'' page0))
     = [(0, ToastShown ''Please fill in all required fields'' ''error'')]
   \<and> fetches (handleLocationSubmission (fill_form ''Home'' ''north'' ''-80.19'' page0)) = []
   \<and> timers (handleLocationSubmission (fill_form ''Home'' ''north'' ''-80.19'' page0))
     = [(5000, ToastExpire 0)]"
proof -
  have "parseFloat (latitude_field (form (fill_form ''Home'' ''north'' ''-80.19'' page0))) = NaN"
    by (simp add: fill_form_def page0_def parseFloat_eval)
  then show ?thesis
    using handleLocationSubmission_rejects [of "fill_form ''Home'' ''north'' ''-80.19'' page0"]
    by (simp add: fill_form_def page0_def showToast_def emit_def setTimeout_def Let_def)
qed

text \<open>A form that passes the check is handed to \<^verbatim>\<open>submitLocationData\<close>.\<close>

lemma handleLocationSubmission_accepts:
  assumes "location_name (form s) \<noteq> []"
    and "truthy_num (parseFloat (latitude_field (form s)))"
    and "truthy_num (parseFloat (longitude_field (form s)))"
  shows "handleLocationSubmission s = submitLocationData (read_form s) s"
  using assms by (simp add: handleLocationSubmission_def read_form_def truthy_str_def Let_def)

text \<open>
  C8. A name that is not empty and two coordinates that parse as numbers should pass the
  check. The check \<^verbatim>\<open>!formData.latitude || !formData.longitude\<close> also rejects the
  number zero: for the name Greenwich, the latitude 51.48 and the longitude 0, all three
  filled in and both coordinates parsed, the function shows the toast ``Please fill in all
  required fields'' and does not start the submission.
\<close>

theorem handleLocationSubmission_zero_coordinate:
  "parseFloat ''51.48'' = Finite (5148 / 100) \<and> parseFloat ''0'' = Finite 0
   \<and> trace (handleLocationSubmission (fill_form ''Greenwich'' ''51.48'' ''0'' page0))
       = [(0, ToastShown ''Please fill in all required fields'' ''error'')]
   \<and> timers (handleLocationSubmission (fill_form ''Greenwich'' ''51.48'' ''0'' page0))
       = [(5000, ToastExpire 0)]"
proof -
  have lat: "parseFloat ''51.48'' = Finite (5148 / 100)" by (simp add: parseFloat_eval)
  have lng: "parseFloat ''0'' = Finite 0" by (simp add: parseFloat_eval)
  show ?thesis
    by (simp add: lat lng handleLocationSubmission_def read_form_def fill_form_def page0_def
        empty_form_def truthy_str_def showToast_def emit_def setTimeout_def Let_def)
qed

text \<open>So on this input the submission step is not reached.\<close>

theorem handleLocationSubmission_zero_coordinate_witness:
  "handleLocationSubmission (fill_form ''Greenwich'' ''51.48'' ''0'' page0)
   \<noteq> submitLocationData (read_form (fill_form ''Greenwich'' ''51.48'' ''0'' page0))
        (fill_form ''Greenwich'' ''51.48'' ''0'' page0)"
proof
  assume "handleLocationSubmission (fill_form ''Greenwich'' ''51.48'' ''0'' page0)
   = submitLocationData (read_form (fill_form ''Greenwich'' ''51.48'' ''0'' page0))
        (fill_form ''Greenwich'' ''51.48'' ''0'' page0)"
  then have "trace (handleLocationSubmission (fill_form ''Greenwich'' ''51.48'' ''0'' page0))
   = trace (submitLocationData (read_form (fill_form ''Greenwich'' ''51.48'' ''0'' page0))
        (fill_form ''Greenwich'' ''51.48'' ''0'' page0))"
    by simp
  with handleLocationSubmission_zero_coordinate show False
    by (simp add: submitLocationData_def showToast_def emit_def setTimeout_def fill_form_def
        page0_def Let_def)
qed

section \<open>The submission of a location\<close>

text \<open>
  C6. \<^verbatim>\<open>submitLocationData\<close> shows the info toast ``Adding location...'' at once and sets
  a timer of 1500 ms. The callback of that timer shows the success toast ``Location added
  successfully!'', hides the modal, resets the form and starts the load of the dashboard, in
  this order and at one time. Whatever else happens on the page, once the time has reached
  1500 ms after the submission these four have happened, after the info toast and not
  before the 1500 ms were over.
\<close>

theorem submitLocationData_flow:
  assumes "Elapse t \<in> set evs" and "now s + 1500 \<le> t"
  shows "trace (submitLocationData data s)
           = trace s @ [(now s, ToastShown ''Adding location...'' ''info'')]
       \<and> timers (submitLocationData data s)
           = timers s @ [(now s + 5000, ToastExpire (next_tid s)), (now s + 1500, LocationAdded)]
       \<and> trace (fire LocationAdded s') = trace s' @ added_block (now s')
       \<and> location_modal (fire LocationAdded s') = \<lparr>visibility = ''hidden'', opacity = ''0''\<rparr>
       \<and> form (fire LocationAdded s') = form_defaults s'
       \<and> (now s' + 1000, DashboardLoaded) \<in> set (timers (fire LocationAdded s'))
       \<and> (\<exists>pre post u. now s + 1500 \<le> u \<and>
             trace (run evs (submitLocationData data s))
               = trace s @ [(now s, ToastShown ''Adding location...'' ''info'')]
                   @ pre @ added_block u @ post)"
proof -
  let ?s1 = "submitLocationData data s"
  have tr: "trace ?s1 = trace s @ [(now s, ToastShown ''Adding location...'' ''info'')]"
    by (simp add: event_defs)
  have ti: "timers ?s1
      = timers s @ [(now s + 5000, ToastExpire (next_tid s)), (now s + 1500, LocationAdded)]"
    by (simp add: event_defs)
  have cb: "trace (fire LocationAdded s') = trace s' @ added_block (now s')"
    by (simp add: callback_trace)
  have st: "location_modal (fire LocationAdded s') = \<lparr>visibility = ''hidden'', opacity = ''0''\<rparr>"
    "form (fire LocationAdded s') = form_defaults s'"
    "(now s' + 1000, DashboardLoaded) \<in> set (timers (fire LocationAdded s'))"
    by (simp_all add: callback_defs)
  have "(now s + 1500, LocationAdded) \<in> set (timers ?s1)"
    by (simp add: ti)
  from added_run [OF this assms]
  obtain pre post u where "now s + 1500 \<le> u"
    "trace (run evs ?s1) = trace ?s1 @ pre @ added_block u @ post" by blast
  then have "\<exists>pre post u. now s + 1500 \<le> u \<and>
             trace (run evs ?s1)
               = trace s @ [(now s, ToastShown ''Adding location...'' ''info'')]
                   @ pre @ added_block u @ post"
    using tr by auto
  with tr ti cb st show ?thesis by blast
qed

theorem submitLocationData_flow_witness:
  "trace (run [Elapse 1500] (submitLocationData (read_form page0) page0))
     = [(0, ToastShown ''Adding location...'' ''info'')] @ added_block 1500
   \<and> (\<exists>pre post u. 1500 \<le> u \<and>
        trace (run [Elapse 1500] (submitLocationData (read_form page0) page0))
          = [(0, ToastShown ''Adding location...'' ''info'')] @ pre @ added_block u @ post)"
proof -
  have "trace (run [Elapse 1500] (submitLocationData (read_form page0) page0))
     = [(0, ToastShown ''Adding location...'' ''info'')] @ added_block 1500"
    by (simp add: run_until.simps take_timer_def event_defs page0_def added_block_def)
  moreover have "Elapse 1500 \<in> set [Elapse 1500]" "now page0 + 1500 \<le> 1500"
    by (simp_all add: page0_def)
  from submitLocationData_flow [OF this, of "read_form page0" page0]
  have "\<exists>pre post u. 1500 \<le> u \<and>
        trace (run [Elapse 1500] (submitLocationData (read_form page0) page0))
          = [(0, ToastShown ''Adding location...'' ''info'')] @ pre @ added_block u @ post"
    by (simp add: page0_def)
  ultimately show ?thesis by blast
qed

text \<open>The scenario of the specification, from the empty page.\<close>

lemma submission_scenario:
  "trace (run [SubmitLocation ''Home'' ''25.77'' ''-80.19'', Elapse 1500] page0)
   = [(0, ToastShown ''Adding location...'' ''info''),
      (1500, ToastShown ''Location added successfully!'' ''success''),
      (1500, ModalHidden), (1500, FormReset), (1500, ConsoleLog ''Loading dashboard data...'')]"
proof -
  have lat: "parseFloat ''25.77'' = Finite (2577 / 100)" by (simp add: parseFloat_eval)
  have lng: "parseFloat ''-80.19'' = Finite (- 8019 / 100)" by (simp add: parseFloat_eval)
  show ?thesis
    by (simp add: lat lng run_until.simps take_timer_def event_defs read_form_def page0_def
        empty_form_def truthy_str_def)
qed

section \<open>The life of a toast\<close>

text \<open>The close button leaves the timers alone: the timer of the toast stays pending.\<close>

lemma dismissToast_timers: "timers (dismissToast i s) = timers s"
  by (simp add: dismissToast_def remove_toast_def)

lemma not_attached_noop:
  assumes "\<not> attached i s"
  shows "fire (ToastExpire i) s = s" and "dismissToast i s = s"
proof -
  show "fire (ToastExpire i) s = s" using assms by (simp add: toast_expire_def)
  have "filter (\<lambda>t. tid t \<noteq> i) (toast_container s) = toast_container s"
    using assms by (auto simp: attached_def filter_id_conv)
  then show "dismissToast i s = s" by (simp add: dismissToast_def remove_toast_def)
qed

text \<open>
  C4. On a page whose toasts have fresh identities, the toast that \<^verbatim>\<open>showToast\<close> creates
  is appended to the container at once. Whatever happens on the page: as long as its close
  button is not used and less than 5000 ms have passed, it is still there; once 5000 ms have
  passed it is gone. Its close button removes it at once, and from then on it stays away,
  the callback of its timer changes nothing when it fires, and closing it again changes
  nothing either.
\<close>

theorem showToast_lifetime:
  assumes "fresh_ids s"
  shows "toast_container (showToast msg type s)
           = toast_container s @ [\<lparr>tid = next_tid s, className = ''toast toast-'' @ type,
                                   icon = toast_icon type, message = msg\<rparr>]
       \<and> attached (next_tid s) (showToast msg type s)
       \<and> (CloseToast (next_tid s) \<notin> set evs \<and> (\<forall>t. Elapse t \<in> set evs \<longrightarrow> t < now s + 5000)
            \<longrightarrow> attached (next_tid s) (run evs (showToast msg type s)))
       \<and> ((\<exists>t. Elapse t \<in> set evs \<and> now s + 5000 \<le> t)
            \<longrightarrow> \<not> attached (next_tid s) (run evs (showToast msg type s)))
       \<and> \<not> attached (next_tid s) (dismissToast (next_tid s) (run evs (showToast msg type s)))
       \<and> (let s2 = run evs' (dismissToast (next_tid s) (run evs (showToast msg type s)))
          in \<not> attached (next_tid s) s2
             \<and> fire (ToastExpire (next_tid s)) s2 = s2
             \<and> dismissToast (next_tid s) s2 = s2)"
proof -
  let ?i = "next_tid s" and ?s1 = "showToast msg type s"
  have c: "toast_container ?s1
           = toast_container s @ [\<lparr>tid = ?i, className = ''toast toast-'' @ type,
                                   icon = toast_icon type, message = msg\<rparr>]"
    by (simp add: callback_defs)
  then have a: "attached ?i ?s1" by (simp add: attached_def)
  have ti: "timers ?s1 = timers s @ [(now s + 5000, ToastExpire ?i)]"
    and nx: "next_tid ?s1 = Suc ?i"
    by (simp_all add: callback_defs)
  have none: "(d, ToastExpire ?i) \<notin> set (timers s)" for d
    using assms by (auto simp: fresh_ids_iff)
  have w: "waiting ?i (now s + 5000) ?s1"
    using a none by (auto simp: waiting_iff ti nx)
  have stays: "attached ?i (run evs ?s1)"
    if "CloseToast ?i \<notin> set evs" "\<forall>t. Elapse t \<in> set evs \<longrightarrow> t < now s + 5000"
    using waiting_run [OF w that(1)] that(2) by (simp add: waiting_iff)
  have goes: "\<not> attached ?i (run evs ?s1)" if "\<exists>t. Elapse t \<in> set evs \<and> now s + 5000 \<le> t"
  proof -
    from that obtain t where "Elapse t \<in> set evs" "now s + 5000 \<le> t" by blast
    moreover have "(now s + 5000, ToastExpire ?i) \<in> set (timers ?s1)" by (simp add: ti)
    moreover have "?i < next_tid ?s1" by (simp add: nx)
    ultimately show ?thesis by (intro expire_run)
  qed
  let ?s' = "run evs ?s1"
  have "?i < next_tid ?s1" by (simp add: nx)
  also have "next_tid ?s1 \<le> next_tid ?s'" by (rule next_tid_run)
  finally have lt: "?i < next_tid (dismissToast ?i ?s')"
    by (simp add: dismissToast_def remove_toast_def)
  have d: "\<not> attached ?i (dismissToast ?i ?s')"
    by (auto simp: dismissToast_def remove_toast_def attached_def)
  let ?s2 = "run evs' (dismissToast ?i ?s')"
  have g: "\<not> attached ?i ?s2" using gone_run [OF d lt] by simp
  from c a stays goes d g not_attached_noop [OF g] show ?thesis
    by (simp add: Let_def)
qed

theorem showToast_lifetime_witness:
  "fresh_ids page0
   \<and> attached 0 (run [Toast ''Demo ready!'' ''success'', Elapse 4999] (showToast ''Saved'' ''info'' page0))
   \<and> \<not> attached 0 (run [Elapse 2000, Toast ''Demo ready!'' ''success'', Elapse 5000]
                      (showToast ''Saved'' ''info'' page0))
   \<and> \<not> attached 0 (run [Elapse 9000] (dismissToast 0 (run [Elapse 100] (showToast ''Saved'' ''info'' page0))))"
proof -
  have f: "fresh_ids page0" by (rule fresh_ids_page0)
  have n: "next_tid page0 = 0" "now page0 = 0" by (simp_all add: page0_def)
  have stays: "attached 0 (run [Toast ''Demo ready!'' ''success'', Elapse 4999]
                              (showToast ''Saved'' ''info'' page0))"
    using showToast_lifetime [OF f, of "''Saved''" "''info''"
        "[Toast ''Demo ready!'' ''success'', Elapse 4999]" "[]"]
    by (simp add: n)
  have "Elapse 5000 \<in> set [Elapse 2000, Toast ''Demo ready!'' ''success'', Elapse 5000]
          \<and> now page0 + 5000 \<le> 5000"
    by (simp add: n)
  then have "\<exists>t. Elapse t \<in> set [Elapse 2000, Toast ''Demo ready!'' ''success'', Elapse 5000]
          \<and> now page0 + 5000 \<le> t" ..
  then have goes: "\<not> attached 0 (run [Elapse 2000, Toast ''Demo ready!'' ''success'', Elapse 5000]
                                  (showToast ''Saved'' ''info'' page0))"
    using showToast_lifetime [OF f, of "''Saved''" "''info''"
        "[Elapse 2000, Toast ''Demo ready!'' ''success'', Elapse 5000]" "[]"]
    unfolding n by blast
  have closed: "\<not> attached 0 (run [Elapse 9000]
      (dismissToast 0 (run [Elapse 100] (showToast ''Saved'' ''info'' page0))))"
    using showToast_lifetime [OF f, of "''Saved''" "''info''" "[Elapse 100]" "[Elapse 9000]"]
    unfolding n Let_def by blast
  from f stays goes closed show ?thesis by blast
qed

section \<open>Requests to the API\<close>

text \<open>Every call issues exactly one request, to the base path followed by the endpoint.\<close>

lemma request_fetches:
  "fetches (snd (request fetch api endpoint options s))
   = fetches s @ [(baseURL api @ endpoint, request_config api options)]"
  by (simp add: request_def callback_defs split: sum.splits)

text \<open>
  C2, as the code has it. A response whose status is not one of 200 to 299 makes
  \<^verbatim>\<open>request\<close> throw the error ``HTTP error! status: '' followed by the status, a rejected
  \<^verbatim>\<open>fetch\<close> makes it throw the error of the rejection, and a response with a success status
  whose body does not parse makes it throw the error of \<^verbatim>\<open>response.json()\<close>. Whenever
  \<^verbatim>\<open>request\<close> throws, the error thrown has been logged with \<^verbatim>\<open>console.error\<close> and exactly
  one toast, ``API request failed'' of type error, has been shown, and nothing else. A response
  with a success status whose body parses makes \<^verbatim>\<open>request\<close> return the parsed body, with no
  log entry and no toast.
\<close>

theorem request_outcomes:
  fixes fetch :: "string \<Rightarrow> config \<Rightarrow> 'j fetch_outcome"
  shows "(fetch (baseURL api @ endpoint) (request_config api options) = Resolved r \<and> \<not> response_ok r
         \<longrightarrow> fst (request fetch api endpoint options s)
               = Inl (Error (''HTTP error! status: '' @ show_nat (status r))))
       \<and> (fetch (baseURL api @ endpoint) (request_config api options) = Rejected e
         \<longrightarrow> fst (request fetch api endpoint options s) = Inl e)
       \<and> (fetch (baseURL api @ endpoint) (request_config api options) = Resolved r \<and> response_ok r
            \<and> json r = Inl e
         \<longrightarrow> fst (request fetch api endpoint options s) = Inl e)
       \<and> (fst (request fetch api endpoint options s) = Inl err
         \<longrightarrow> trace (snd (request fetch api endpoint options s))
               = trace s @ [(now s, ConsoleError ''API request failed:'' err),
                            (now s, ToastShown ''API request failed'' ''error'')]
             \<and> toast_container (snd (request fetch api endpoint options s))
               = toast_container s @ [\<lparr>tid = next_tid s, className = ''toast toast-error'',
                                       icon = ''exclamation-triangle'',
                                       message = ''API request failed''\<rparr>])
       \<and> (fetch (baseURL api @ endpoint) (request_config api options) = Resolved r \<and> response_ok r
            \<and> json r = Inr v
         \<longrightarrow> fst (request fetch api endpoint options s) = Inr v
             \<and> trace (snd (request fetch api endpoint options s)) = trace s
             \<and> toast_container (snd (request fetch api endpoint options s)) = toast_container s)
       \<and> fetches (snd (request fetch api endpoint options s))
           = fetches s @ [(baseURL api @ endpoint, request_config api options)]"
proof -
  let ?out = "fetch (baseURL api @ endpoint) (request_config api options)"
  let ?res = "request fetch api endpoint options s"
  have status: "fst ?res = Inl (Error (''HTTP error! status: '' @ show_nat (status r)))"
    if "?out = Resolved r" "\<not> response_ok r"
    using that by (simp add: request_def)
  have network: "fst ?res = Inl e" if "?out = Rejected e"
    using that by (simp add: request_def)
  have unparsed: "fst ?res = Inl e" if "?out = Resolved r" "response_ok r" "json r = Inl e"
    using that by (simp add: request_def)
  have failure: "trace (snd ?res)
               = trace s @ [(now s, ConsoleError ''API request failed:'' err),
                            (now s, ToastShown ''API request failed'' ''error'')]
             \<and> toast_container (snd ?res)
               = toast_container s @ [\<lparr>tid = next_tid s, className = ''toast toast-error'',
                                       icon = ''exclamation-triangle'',
                                       message = ''API request failed''\<rparr>]"
    if "fst ?res = Inl err"
    using that by (auto simp: request_def callback_defs toast_icon_def split: sum.splits)
  have success: "fst ?res = Inr v \<and> trace (snd ?res) = trace s
      \<and> toast_container (snd ?res) = toast_container s"
    if "?out = Resolved r" "response_ok r" "json r = Inr v"
    using that by (simp add: request_def)
  from status network unparsed failure success request_fetches show ?thesis by blast
qed

theorem request_outcomes_witness:
  "fst (request fetch_404 (new_ClimateAPI Map.empty) ''/analyze'' \<lparr>headers = None,
          http_method = Some ''POST'', body = Some ''{}''\<rparr> page0)
     = Inl (Error ''HTTP error! status: 404'')
   \<and> trace (snd (request fetch_404 (new_ClimateAPI Map.empty) ''/analyze'' \<lparr>headers = None,
          http_method = Some ''POST'', body = Some ''{}''\<rparr> page0))
     = [(0, ConsoleError ''API request failed:'' (Error ''HTTP error! status: 404'')),
        (0, ToastShown ''API request failed'' ''error'')]
   \<and> fst (request fetch_down (new_ClimateAPI Map.empty) ''/analyze'' \<lparr>headers = None,
          http_method = Some ''POST'', body = Some ''{}''\<rparr> page0)
     = Inl (TypeError ''Failed to fetch'')
   \<and> fst (request fetch_200 (new_ClimateAPI Map.empty) ''/analyze'' \<lparr>headers = None,
          http_method = Some ''POST'', body = Some ''{}''\<rparr> page0)
     = Inr ''risk: low''"
proof -
  let ?api = "new_ClimateAPI Map.empty"
  let ?opts = "\<lparr>headers = None, http_method = Some ''POST'', body = Some ''{}''\<rparr>"
  have n: "show_nat 404 = ''404''" by (simp add: show_nat.simps digit_char_def)
  note r404 = request_outcomes [of fetch_404 ?api "''/analyze''" ?opts
      "\<lparr>status = 404, json = Inl (SyntaxError ''Unexpected token'')\<rparr>" page0
      _ "Error ''HTTP error! status: 404''"]
  note rdown = request_outcomes [of fetch_down ?api "''/analyze''" ?opts _ page0
      "TypeError ''Failed to fetch''"]
  note r200 = request_outcomes [of fetch_200 ?api "''/analyze''" ?opts
      "\<lparr>status = 200, json = Inr ''risk: low''\<rparr>" page0 _ _ "''risk: low''"]
  have a: "fst (request fetch_404 ?api ''/analyze'' ?opts page0)
      = Inl (Error ''HTTP error! status: 404'')"
    using r404 by (simp add: fetch_404_def response_ok_def n)
  then have b: "trace (snd (request fetch_404 ?api ''/analyze'' ?opts page0))
     = [(0, ConsoleError ''API request failed:'' (Error ''HTTP error! status: 404'')),
        (0, ToastShown ''API request failed'' ''error'')]"
    using r404 by (simp add: page0_def)
  have c: "fst (request fetch_down ?api ''/analyze'' ?opts page0) = Inl (TypeError ''Failed to fetch'')"
    using rdown by (simp add: fetch_down_def)
  have d: "fst (request fetch_200 ?api ''/analyze'' ?opts page0) = Inr ''risk: low''"
    using r200 by (simp add: fetch_200_def response_ok_def)
  from a b c d show ?thesis by blast
qed

text \<open>
  C2 as it is stated fails: a success status alone does not make \<^verbatim>\<open>request\<close> return. The
  status 204 is a success status and its body is empty, so \<^verbatim>\<open>response.json()\<close> throws inside
  the \<^verbatim>\<open>try\<close>: the call logs, shows the toast and throws the syntax error.
\<close>

theorem request_outcomes_counterexample:
  "response_ok \<lparr>status = 204, json = (Inl (SyntaxError ''Unexpected end of JSON input'')
                                        :: js_error + string)\<rparr>
   \<and> fst (request fetch_204 (new_ClimateAPI Map.empty) ''/analyze''
            \<lparr>headers = None, http_method = Some ''POST'', body = Some ''{}''\<rparr> page0)
       = Inl (SyntaxError ''Unexpected end of JSON input'')
   \<and> trace (snd (request fetch_204 (new_ClimateAPI Map.empty) ''/analyze''
            \<lparr>headers = None, http_method = Some ''POST'', body = Some ''{}''\<rparr> page0))
       = [(0, ConsoleError ''API request failed:'' (SyntaxError ''Unexpected end of JSON input'')),
          (0, ToastShown ''API request failed'' ''error'')]"
  by (simp add: request_def fetch_204_def response_ok_def callback_defs page0_def)

text \<open>
  C3, as the code has it. When the options of a call have no \<open>headers\<close> field, the request
  carries the content type, and it carries the header \<^verbatim>\<open>Authorization\<close> with the value
  ``Bearer '' followed by the token exactly when a token that is not the empty string was
  found in the storage at construction; with no token, or the empty one, the header is not
  there at all.
\<close>

theorem request_authorization:
  assumes "headers options = None"
  shows "\<exists>sent.
           fetches (snd (request fetch (new_ClimateAPI localStorage) endpoint options s))
             = fetches s @ [(''/api/v1'' @ endpoint,
                             \<lparr>headers = Some sent, http_method = http_method options,
                              body = body options\<rparr>)]
         \<and> sent ''Content-Type'' = Some ''application/json''
         \<and> sent ''Authorization''
             = (case localStorage ''auth_token'' of
                  None \<Rightarrow> None
                | Some t \<Rightarrow> if t = [] then None else Some (''Bearer '' @ t))"
  using assms
  by (simp add: request_fetches request_config_def default_headers_def new_ClimateAPI_def
      truthy_str_def map_add_def split: option.splits)

theorem request_authorization_witness:
  "\<exists>sent.
     fetches (snd (request fetch_200 (new_ClimateAPI [''auth_token'' \<mapsto> ''abc''])
                     ''/climate/data?lat=25.77&lng=-80.19''
                     \<lparr>headers = None, http_method = None, body = None\<rparr> page0))
       = [(''/api/v1/climate/data?lat=25.77&lng=-80.19'',
           \<lparr>headers = Some sent, http_method = None, body = None\<rparr>)]
     \<and> sent ''Content-Type'' = Some ''application/json''
     \<and> sent ''Authorization'' = Some ''Bearer abc''"
  using request_authorization [of "\<lparr>headers = None, http_method = None, body = None\<rparr>"
      fetch_200 "[''auth_token'' \<mapsto> ''abc'']" "''/climate/data?lat=25.77&lng=-80.19''" page0]
  by (simp add: page0_def)

text \<open>
  C3 as it is stated fails twice. With the token \<^verbatim>\<open>abc\<close> loaded, a call whose options
  bring their own headers issues a request without the header \<^verbatim>\<open>Authorization\<close>; and with
  the empty string loaded as the token, the header is left out, not sent as ``Bearer ''.
\<close>

theorem request_authorization_counterexample:
  "token (new_ClimateAPI [''auth_token'' \<mapsto> ''abc'']) = Some ''abc''
   \<and> fetches (snd (request fetch_200 (new_ClimateAPI [''auth_token'' \<mapsto> ''abc'']) ''/analyze''
         \<lparr>headers = Some [''Accept'' \<mapsto> ''text/plain''], http_method = Some ''POST'',
          body = Some ''{}''\<rparr> page0))
       = [(''/api/v1/analyze'',
           \<lparr>headers = Some [''Accept'' \<mapsto> ''text/plain''], http_method = Some ''POST'',
            body = Some ''{}''\<rparr>)]
   \<and> [''Accept'' \<mapsto> ''text/plain''] ''Authorization'' = None
   \<and> token (new_ClimateAPI [''auth_token'' \<mapsto> '''']) = Some ''''
   \<and> fetches (snd (request fetch_200 (new_ClimateAPI [''auth_token'' \<mapsto> '''']) ''/analyze''
         \<lparr>headers = None, http_method = Some ''POST'', body = Some ''{}''\<rparr> page0))
       = [(''/api/v1/analyze'',
           \<lparr>headers = Some [''Content-Type'' \<mapsto> ''application/json''],
            http_method = Some ''POST'', body = Some ''{}''\<rparr>)]
   \<and> [''Content-Type'' \<mapsto> ''application/json''] ''Authorization'' = None"
  by (simp add: request_fetches request_config_def default_headers_def new_ClimateAPI_def
      truthy_str_def page0_def)

text \<open>
  C10. When the options of a call have a \<open>headers\<close> field, the configuration handed to
  \<^verbatim>\<open>fetch\<close> has exactly these headers in the place of the default ones: the content type
  and the bearer header are sent only if the caller's headers contain them.
\<close>

theorem request_headers_replaced:
  assumes "headers options = Some h"
  shows "request_config api options
           = \<lparr>headers = Some h, http_method = http_method options, body = body options\<rparr>
       \<and> fetches (snd (request fetch api endpoint options s))
           = fetches s @ [(baseURL api @ endpoint,
                           \<lparr>headers = Some h, http_method = http_method options,
                            body = body options\<rparr>)]"
  using assms by (simp add: request_fetches request_config_def)

theorem request_headers_replaced_witness:
  "default_headers (new_ClimateAPI [''auth_token'' \<mapsto> ''s3cret'']) ''Authorization''
     = Some ''Bearer s3cret''
   \<and> fetches (snd (request fetch_404 (new_ClimateAPI [''auth_token'' \<mapsto> ''s3cret''])
         ''/recommendations/17''
         \<lparr>headers = Some [''X-Requested-With'' \<mapsto> ''dashboard''], http_method = None,
          body = None\<rparr> page0))
       = [(''/api/v1/recommendations/17'',
           \<lparr>headers = Some [''X-Requested-With'' \<mapsto> ''dashboard''], http_method = None,
            body = None\<rparr>)]
   \<and> [''X-Requested-With'' \<mapsto> ''dashboard''] ''Content-Type'' = None
   \<and> [''X-Requested-With'' \<mapsto> ''dashboard''] ''Authorization'' = None"
  using request_headers_replaced [of
      "\<lparr>headers = Some [''X-Requested-With'' \<mapsto> ''dashboard''], http_method = None, body = None\<rparr>"
      "[''X-Requested-With'' \<mapsto> ''dashboard'']" "new_ClimateAPI [''auth_token'' \<mapsto> ''s3cret'']"
      fetch_404 "''/recommendations/17''" page0]
  by (simp add: page0_def new_ClimateAPI_def default_headers_def truthy_str_def)

section \<open>The series of the chart\<close>

text \<open>Both loops, as the lists they build.\<close>

lemma date_labels_loop_eq:
  "date_labels_loop fmt today i acc = acc @ map fmt [today - i..today]"
proof (induction fmt today i acc rule: date_labels_loop.induct)
  case (1 fmt today i acc)
  show ?case
  proof (cases "0 \<le> i")
    case True
    then have "[today - i..today] = (today - i) # [today - (i - 1)..today]"
      by (simp add: upto_rec1 [of "today - i" today] algebra_simps)
    with True "1.IH" show ?thesis by (subst date_labels_loop.simps) simp
  next
    case False
    then show ?thesis by (subst date_labels_loop.simps) simp
  qed
qed

lemma generateDateLabels_eq:
  "generateDateLabels fmt today days = map fmt [today - (days - 1)..today]"
  by (simp add: generateDateLabels_def date_labels_loop_eq)

lemma temperature_loop_eq:
  "temperature_loop fl random days i data
   = data @ map (temperature_at fl random) [i..days - 1]"
proof (induction fl random days i data rule: temperature_loop.induct)
  case (1 fl random days i data)
  show ?case
  proof (cases "i < days")
    case True
    then have "[i..days - 1] = i # [i + 1..days - 1]"
      by (simp add: upto_rec1)
    with True "1.IH" show ?thesis
      by (subst temperature_loop.simps) (simp add: temperature_at_def Let_def)
  next
    case False
    then show ?thesis by (subst temperature_loop.simps) simp
  qed
qed

lemma generateTemperatureData_eq:
  "generateTemperatureData fl random days = map (temperature_at fl random) [0..days - 1]"
  by (simp add: generateTemperatureData_def temperature_loop_eq)

lemma range_days_values:
  "range_days ''7d'' = 7" "range_days ''30d'' = 30" "range_days ''90d'' = 90"
  "range_days ''1y'' = 365"
  "timeRange \<notin> {''7d'', ''30d'', ''90d'', ''1y''} \<Longrightarrow> range_days timeRange = 30"
  by (simp_all add: range_days_def)

lemma range_days_pos: "0 < range_days timeRange"
  by (simp add: range_days_def)

text \<open>
  C5. \<^verbatim>\<open>updateChartData\<close> takes 7 points for the range 7d, 30 for 30d, 90 for 90d, 365 for
  1y and 30 for every other range. When the chart exists, the labels and the values it sets
  have both exactly that many entries, the labels are those of the consecutive days that end
  today, the oldest first, and the chart is redrawn once.
\<close>

theorem updateChartData_points:
  assumes "temperatureChart s = Some c"
  shows "range_days ''7d'' = 7 \<and> range_days ''30d'' = 30 \<and> range_days ''90d'' = 90
       \<and> range_days ''1y'' = 365
       \<and> (timeRange \<notin> {''7d'', ''30d'', ''90d'', ''1y''} \<longrightarrow> range_days timeRange = 30)
       \<and> (\<exists>c'. temperatureChart (updateChartData fmt today fl random timeRange s) = Some c'
             \<and> length (data_labels c') = nat (range_days timeRange)
             \<and> length (data_dataset0 c') = nat (range_days timeRange)
             \<and> data_labels c' = map fmt [today - (range_days timeRange - 1)..today]
             \<and> updates c' = Suc (updates c))"
  using assms range_days_pos [of timeRange]
  by (simp add: range_days_values updateChartData_def generateDateLabels_eq
      generateTemperatureData_eq Let_def)

theorem updateChartData_points_witness:
  "\<exists>c'. temperatureChart (updateChartData (\<lambda>d. show_nat (nat d)) 20000 (\<lambda>x. x) (\<lambda>k. 1 / 4) ''7d''
            (page0\<lparr>temperatureChart := Some \<lparr>data_labels = [], data_dataset0 = [], updates = 0\<rparr>\<rparr>))
          = Some c'
        \<and> length (data_labels c') = 7 \<and> length (data_dataset0 c') = 7
        \<and> data_labels c' = map (\<lambda>d. show_nat (nat d)) [19994..20000]
        \<and> updates c' = 1"
  using updateChartData_points [of
      "page0\<lparr>temperatureChart := Some \<lparr>data_labels = [], data_dataset0 = [], updates = 0\<rparr>\<rparr>"
      "\<lparr>data_labels = [], data_dataset0 = [], updates = 0\<rparr>" "''7d''"
      "\<lambda>d. show_nat (nat d)" 20000 "\<lambda>x. x" "\<lambda>k. 1 / 4"]
  by (simp add: range_days_def)

text \<open>
  C9. For every rounding that is monotone and keeps the halves, the fours and the two bounds
  20.5 and 28.5, and for draws of \<^verbatim>\<open>Math.random()\<close> in the interval from 0 (included) to 1
  (excluded): every value of \<^verbatim>\<open>generateTemperatureData\<close> is the base 24.5 plus an offset
  of at most 4 in magnitude, so it is at most 4.0 away from 24.5.
\<close>

theorem generateTemperatureData_bounded:
  assumes "mono fl"
    and "fl (- (1 / 2)) = - (1 / 2)" and "fl (1 / 2) = 1 / 2"
    and "fl (- 4) = - 4" and "fl 4 = 4"
    and "fl (41 / 2) = 41 / 2" and "fl (57 / 2) = 57 / 2"
    and "\<forall>k. 0 \<le> random k \<and> random k < 1"
    and "v \<in> set (generateTemperatureData fl random days)"
  shows "\<exists>k. v = fl (baseTemp + fl (fl (random k - 0.5) * 8))
           \<and> \<bar>fl (fl (random k - 0.5) * 8)\<bar> \<le> 4
           \<and> \<bar>v - 24.5\<bar> \<le> 4.0"
proof -
  from assms(9) obtain i where v: "v = temperature_at fl random i"
    by (auto simp: generateTemperatureData_eq)
  let ?r = "random (nat i)"
  let ?x = "fl (?r - 0.5)"
  let ?var = "fl (?x * 8)"
  have r: "0 \<le> ?r" "?r < 1" using assms(8) by auto
  have "fl (- (1 / 2)) \<le> ?x" using r by (intro monoD [OF assms(1)]) simp
  moreover have "?x \<le> fl (1 / 2)" using r by (intro monoD [OF assms(1)]) simp
  ultimately have x: "- (1 / 2) \<le> ?x" "?x \<le> 1 / 2" using assms(2,3) by simp_all
  have "fl (- 4) \<le> ?var" using x by (intro monoD [OF assms(1)]) simp
  moreover have "?var \<le> fl 4" using x by (intro monoD [OF assms(1)]) simp
  ultimately have var: "- 4 \<le> ?var" "?var \<le> 4" using assms(4,5) by simp_all
  have "fl (41 / 2) \<le> fl (baseTemp + ?var)"
    using var by (intro monoD [OF assms(1)]) (simp add: baseTemp_def)
  moreover have "fl (baseTemp + ?var) \<le> fl (57 / 2)"
    using var by (intro monoD [OF assms(1)]) (simp add: baseTemp_def)
  ultimately have "41 / 2 \<le> v" "v \<le> 57 / 2"
    using assms(6,7) by (simp_all add: v temperature_at_def)
  then have "\<bar>v - 24.5\<bar> \<le> 4.0" by simp
  moreover have "\<bar>?var\<bar> \<le> 4" using var by simp
  ultimately show ?thesis using v by (auto simp: temperature_at_def)
qed

theorem generateTemperatureData_bounded_witness:
  "generateTemperatureData (\<lambda>x. x) (\<lambda>k. 1 / 4) 2 = [45 / 2, 45 / 2]
   \<and> (\<exists>k. (45 / 2 :: real) = baseTemp + ((\<lambda>k. 1 / 4) k - 0.5) * 8
          \<and> \<bar>(((\<lambda>k. 1 / 4) k :: real) - 0.5) * 8\<bar> \<le> 4
          \<and> \<bar>(45 / 2 :: real) - 24.5\<bar> \<le> 4.0)"
proof -
  have e: "generateTemperatureData (\<lambda>x. x) (\<lambda>k. 1 / 4) 2 = [45 / 2, 45 / 2]"
    by (simp add: generateTemperatureData_def temperature_loop.simps baseTemp_def)
  have m: "mono (\<lambda>x :: real. x)" by (simp add: mono_def)
  from generateTemperatureData_bounded [of "\<lambda>x. x" "\<lambda>k. 1 / 4" "45 / 2" 2, OF m] e
  show ?thesis by simp
qed

section \<open>The frames of the animation\<close>

lemma js_le_Finite [simp]: "js_le (Finite x) (Finite y) \<longleftrightarrow> x \<le> y"
  by (auto simp: js_le_def)



lemma js_min_one:
  "js_min PosInfinity (Finite 1) = Finite 1"
  "js_min (Finite q) (Finite 1) = Finite (min q 1)"
  by (auto simp: js_min_def min_def)















lemma current_at_exact:
  "d \<noteq> 0 \<Longrightarrow> current_at Finite (Finite a) (Finite b) startTime (Finite d) t
     = Finite (a + (b - a) * min (real_of_int (t - startTime) / d) 1)"
  by (simp add: current_at_def js_sub_def progress_at_def js_min_one Let_def)








end
